theory Spec2Isabelle
  imports Complex_Main
begin

section \<open>Values shared by the whole dashboard\<close>

text \<open>
  Document ids are the strings the document store hands out. A JavaScript number is
  taken as an exact rational: every finite double is one, and the rounding of the
  floating-point additions is not part of this development. A reference that may be
  \<open>null\<close> (or missing) is an \<open>option\<close>. The test \<open>if (x)\<close> on such a
  reference fails for \<open>null\<close> and for the empty string.
\<close>

type_synonym doc_id = string
type_synonym timestamp = int

definition truthy :: "string option \<Rightarrow> bool" where
  "truthy x = (case x of None \<Rightarrow> False | Some s \<Rightarrow> s \<noteq> [])"

section \<open>Objects used as accumulators\<close>




text \<open>\<open>acc[k] || 0\<close>: a missing property and a stored zero both give zero.\<close>

definition or_zero :: "rat option \<Rightarrow> rat" where
  "or_zero x = (case x of None \<Rightarrow> 0 | Some v \<Rightarrow> if v = 0 then 0 else v)"



section \<open>Reports: the read-side folds of ReportsPage\<close>
















section \<open>The record store (hook useFirestore)\<close>

text \<open>
  A collection is the array the snapshot listener delivers: one entry per document,
  \<open>{id: doc.id, ...doc.data()}\<close>. The hook stamps \<open>createdAt\<close> on creation and
  \<open>updatedAt\<close> on every update, so both stand beside the entity's own fields.
  Between two operations the snapshot is taken to be current: an operation reads the
  collections as they are when it starts (its closure), and writes to the store.
  The clock reading of \<open>Timestamp.now()\<close> is an argument; the readings of one
  operation are taken as one instant, except in addAttendance where both are given.
  The remote store is taken to accept every write it is sent; the one rejection that
  is part of its contract, \<open>updateDoc\<close> on a document that does not exist, is a
  branch of \<open>updateDocument\<close> (the hook catches it and shows a notice).
  AppContent is mounted only once the database handle is set, so the hook's
  \<open>if (!db)\<close> returns are not reachable from these operations.
\<close>

record 'f document =
  d_id :: doc_id
  d_data :: 'f
  createdAt :: "timestamp option"
  updatedAt :: "timestamp option"

type_synonym 'f collection = "'f document list"

text \<open>\<open>data.find(x => x.id === i)\<close>\<close>

definition find_doc :: "'f collection \<Rightarrow> doc_id \<Rightarrow> 'f document option" where
  "find_doc col i = find (\<lambda>d. d_id d = i) col"

text \<open>\<open>addDoc\<close>: the store creates the document under an id it generates
  (\<open>new_id\<close>, which the hook returns).\<close>

definition addDocument :: "doc_id \<Rightarrow> timestamp \<Rightarrow> 'f \<Rightarrow> 'f collection \<Rightarrow> 'f collection" where
  "addDocument new_id now newDoc col =
     col @ [\<lparr>d_id = new_id, d_data = newDoc, createdAt = Some now, updatedAt = None\<rparr>]"

text \<open>\<open>updateDoc\<close>: the given fields are merged into the stored document
  (\<open>updatedData\<close> is that merge); a document that does not exist is not created.\<close>

definition updateDocument ::
  "doc_id \<Rightarrow> ('f \<Rightarrow> 'f) \<Rightarrow> timestamp \<Rightarrow> 'f collection \<Rightarrow> 'f collection" where
  "updateDocument i updatedData now col =
     (if i \<in> d_id ` set col
      then map (\<lambda>d. if d_id d = i
                     then d\<lparr>d_data := updatedData (d_data d), updatedAt := Some now\<rparr>
                     else d) col
      else col)"

definition deleteDocument :: "doc_id \<Rightarrow> 'f collection \<Rightarrow> 'f collection" where
  "deleteDocument i col = filter (\<lambda>d. d_id d \<noteq> i) col"

section \<open>Students and classes (AppContent)\<close>

text \<open>
  The student forms pass all six fields, so the data written for a student replaces
  them all. \<open>classId\<close> is \<open>None\<close> for \<open>null\<close> and for a missing field (the two
  behave alike in every test of the source). A class's \<open>students\<close> field is read
  through \<open>cls.students || []\<close>; a missing field is the empty list.
\<close>

record student_fields =
  s_name :: string
  s_phone :: string
  s_email :: string
  s_paid :: bool
  classId :: "doc_id option"
  s_studentType :: string

record class_fields =
  c_name :: string
  c_description :: string
  c_students :: "doc_id list"
  c_instructors :: "doc_id list"

text \<open>The partial object handed to updateClass: only the fields present are written.\<close>

record class_update =
  u_name :: "string option"
  u_description :: "string option"
  u_students :: "doc_id list option"
  u_instructors :: "doc_id list option"

definition merge_class :: "class_update \<Rightarrow> class_fields \<Rightarrow> class_fields" where
  "merge_class u c =
     \<lparr>c_name = (case u_name u of Some v \<Rightarrow> v | None \<Rightarrow> c_name c),
      c_description = (case u_description u of Some v \<Rightarrow> v | None \<Rightarrow> c_description c),
      c_students = (case u_students u of Some v \<Rightarrow> v | None \<Rightarrow> c_students c),
      c_instructors = (case u_instructors u of Some v \<Rightarrow> v | None \<Rightarrow> c_instructors c)\<rparr>"

text \<open>\<open>{ students: ids }\<close>\<close>

definition students_only :: "doc_id list \<Rightarrow> class_update" where
  "students_only ids =
     \<lparr>u_name = None, u_description = None, u_students = Some ids, u_instructors = None\<rparr>"

record state =
  students :: "student_fields collection"
  classes :: "class_fields collection"

definition updateClassDoc :: "doc_id \<Rightarrow> class_update \<Rightarrow> timestamp \<Rightarrow> state \<Rightarrow> state" where
  "updateClassDoc i u now st = st\<lparr>classes := updateDocument i (merge_class u) now (classes st)\<rparr>"

definition addStudent :: "doc_id \<Rightarrow> timestamp \<Rightarrow> student_fields \<Rightarrow> state \<Rightarrow> state" where
  "addStudent new_id now newStudent st =
     (let studentId = new_id;
          st1 = st\<lparr>students := addDocument new_id now newStudent (students st)\<rparr>
      in if studentId \<noteq> [] \<and> truthy (classId newStudent) then
           (case find_doc (classes st) (the (classId newStudent)) of
              Some currentClass \<Rightarrow>
                (let updatedStudentsInClass = c_students (d_data currentClass) @ [studentId]
                 in updateClassDoc (the (classId newStudent))
                      (students_only updatedStudentsInClass) now st1)
            | None \<Rightarrow> st1)
         else st1)"

definition updateStudent :: "doc_id \<Rightarrow> student_fields \<Rightarrow> timestamp \<Rightarrow> state \<Rightarrow> state" where
  "updateStudent studentId updatedData now st =
     (let oldStudent = find_doc (students st) studentId;
          oldClassId = (case oldStudent of Some s \<Rightarrow> classId (d_data s) | None \<Rightarrow> None);
          newClassId = classId updatedData;
          st1 = st\<lparr>students := updateDocument studentId (\<lambda>_. updatedData) now (students st)\<rparr>
      in if oldClassId \<noteq> newClassId then
           (let st2 =
                  (if truthy oldClassId then
                     (case find_doc (classes st) (the oldClassId) of
                        Some oldClass \<Rightarrow>
                          (let updatedStudentsInOldClass =
                                 filter (\<lambda>i. i \<noteq> studentId) (c_students (d_data oldClass))
                           in updateClassDoc (the oldClassId)
                                (students_only updatedStudentsInOldClass) now st1)
                      | None \<Rightarrow> st1)
                   else st1)
            in if truthy newClassId then
                 (case find_doc (classes st) (the newClassId) of
                    Some newClass \<Rightarrow>
                      (let updatedStudentsInNewClass = c_students (d_data newClass) @ [studentId]
                       in updateClassDoc (the newClassId)
                            (students_only updatedStudentsInNewClass) now st2)
                  | None \<Rightarrow> st2)
               else st2)
         else st1)"

definition deleteStudent :: "doc_id \<Rightarrow> timestamp \<Rightarrow> state \<Rightarrow> state" where
  "deleteStudent studentId now st =
     (let studentToDelete = find_doc (students st) studentId;
          classIdOfStudent =
            (case studentToDelete of Some s \<Rightarrow> classId (d_data s) | None \<Rightarrow> None);
          st1 = st\<lparr>students := deleteDocument studentId (students st)\<rparr>
      in if truthy classIdOfStudent then
           (case find_doc (classes st) (the classIdOfStudent) of
              Some currentClass \<Rightarrow>
                (let updatedStudentsInClass =
                       filter (\<lambda>i. i \<noteq> studentId) (c_students (d_data currentClass))
                 in updateClassDoc (the classIdOfStudent)
                      (students_only updatedStudentsInClass) now st1)
            | None \<Rightarrow> st1)
         else st1)"

definition updateClass :: "doc_id \<Rightarrow> class_update \<Rightarrow> timestamp \<Rightarrow> state \<Rightarrow> state" where
  "updateClass cid updatedData now st = updateClassDoc cid updatedData now st"

text \<open>AssignStudentsToClassModal.handleSubmit:
  \<open>onUpdateClass(cls.id, { students: selectedStudentIds })\<close>\<close>

definition assignStudentsToClass :: "doc_id \<Rightarrow> doc_id list \<Rightarrow> timestamp \<Rightarrow> state \<Rightarrow> state" where
  "assignStudentsToClass cid selectedStudentIds now st =
     updateClass cid (students_only selectedStudentIds) now st"

text \<open>The loop of deleteClass: \<open>updateStudentDoc(student.id, {...student, classId: null})\<close>
  for each student of the snapshot that references the class. The spread writes the
  six fields of the snapshot's copy back (and its id and creation time, which are the
  stored ones), with \<open>classId\<close> cleared.\<close>

fun unassign_students ::
  "student_fields document list \<Rightarrow> timestamp \<Rightarrow> student_fields collection
     \<Rightarrow> student_fields collection" where
  "unassign_students [] now col = col"
| "unassign_students (student # rest) now col =
     unassign_students rest now
       (updateDocument (d_id student) (\<lambda>_. (d_data student)\<lparr>classId := None\<rparr>) now col)"

definition deleteClass_unassign :: "doc_id \<Rightarrow> timestamp \<Rightarrow> state \<Rightarrow> state" where
  "deleteClass_unassign cid now st =
     (let studentsInClass = filter (\<lambda>s. classId (d_data s) = Some cid) (students st)
      in st\<lparr>students := unassign_students studentsInClass now (students st)\<rparr>)"

definition deleteClass :: "doc_id \<Rightarrow> timestamp \<Rightarrow> state \<Rightarrow> state" where
  "deleteClass cid now st =
     (let st1 = deleteClass_unassign cid now st
      in st1\<lparr>classes := deleteDocument cid (classes st1)\<rparr>)"

subsection \<open>Sequences of operations\<close>

datatype op =
  AddStudent doc_id timestamp student_fields
| UpdateStudent doc_id student_fields timestamp
| DeleteStudent doc_id timestamp
| DeleteClass doc_id timestamp

fun apply_op :: "state \<Rightarrow> op \<Rightarrow> state" where
  "apply_op st (AddStudent new_id now newStudent) = addStudent new_id now newStudent st"
| "apply_op st (UpdateStudent studentId updatedData now) = updateStudent studentId updatedData now st"
| "apply_op st (DeleteStudent studentId now) = deleteStudent studentId now st"
| "apply_op st (DeleteClass cid now) = deleteClass cid now st"

fun run :: "state \<Rightarrow> op list \<Rightarrow> state" where
  "run st [] = st"
| "run st (x # xs) = run (apply_op st x) xs"

text \<open>The id the store generates for a new document is a new one: not empty, not the
  id of a stored student, and not mentioned in any class.\<close>

definition fresh_id :: "state \<Rightarrow> doc_id \<Rightarrow> bool" where
  "fresh_id st i =
     (i \<noteq> [] \<and> i \<notin> d_id ` set (students st)
      \<and> list_all (\<lambda>c. i \<notin> set (c_students (d_data c))) (classes st))"

fun generated_ids_fresh :: "state \<Rightarrow> op list \<Rightarrow> bool" where
  "generated_ids_fresh st [] = True"
| "generated_ids_fresh st (AddStudent new_id now newStudent # xs) =
     (fresh_id st new_id
      \<and> generated_ids_fresh (apply_op st (AddStudent new_id now newStudent)) xs)"
| "generated_ids_fresh st (x # xs) = generated_ids_fresh (apply_op st x) xs"

text \<open>The student and the class agree: the student points to the class exactly when
  the class lists the student.\<close>

definition agree :: "student_fields document \<Rightarrow> class_fields document \<Rightarrow> bool" where
  "agree s c = ((classId (d_data s) = Some (d_id c)) = (d_id s \<in> set (c_students (d_data c))))"

definition all_agree :: "state \<Rightarrow> bool" where
  "all_agree st = list_all (\<lambda>s. list_all (\<lambda>c. agree s c) (classes st)) (students st)"

text \<open>A consistent state: the agreement holds, and no class has the empty id (the
  store has no document with an empty id).\<close>

definition consistent :: "state \<Rightarrow> bool" where
  "consistent st = (all_agree st \<and> [] \<notin> d_id ` set (classes st))"

subsection \<open>Notions used in the proofs\<close>

text \<open>The class a student pointed to when the operation started (\<open>oldClassId\<close> of
  updateStudent, \<open>classIdOfStudent\<close> of deleteStudent).\<close>

definition old_class :: "state \<Rightarrow> doc_id \<Rightarrow> doc_id option" where
  "old_class st sid =
     (case find_doc (students st) sid of Some s \<Rightarrow> classId (d_data s) | None \<Rightarrow> None)"

text \<open>The two writes of updateStudent to the class collection: the student leaves the
  old class (this is also the write of deleteStudent), and joins the new one.\<close>

definition leave_old :: "state \<Rightarrow> doc_id \<Rightarrow> timestamp \<Rightarrow> class_fields collection" where
  "leave_old st sid now =
     (let k = old_class st sid in
      if truthy k then
        (case find_doc (classes st) (the k) of
           Some oc \<Rightarrow> updateDocument (the k)
              (merge_class (students_only (filter (\<lambda>i. i \<noteq> sid) (c_students (d_data oc))))) now
              (classes st)
         | None \<Rightarrow> classes st)
      else classes st)"

definition join_new ::
  "state \<Rightarrow> doc_id \<Rightarrow> doc_id option \<Rightarrow> timestamp \<Rightarrow> class_fields collection \<Rightarrow> class_fields collection" where
  "join_new st sid k now cls =
     (if truthy k then
        (case find_doc (classes st) (the k) of
           Some nc \<Rightarrow> updateDocument (the k)
              (merge_class (students_only (c_students (d_data nc) @ [sid]))) now cls
         | None \<Rightarrow> cls)
      else cls)"

text \<open>The first class document with a given id, the one \<open>find\<close> returns.\<close>

definition first_class :: "state \<Rightarrow> doc_id \<Rightarrow> class_fields document" where
  "first_class st i = the (find_doc (classes st) i)"

subsection \<open>Class lists without duplicates\<close>

text \<open>No class lists a student twice.\<close>

definition no_duplicates :: "state \<Rightarrow> bool" where
  "no_duplicates st = list_all (\<lambda>c. distinct (c_students (d_data c))) (classes st)"

text \<open>Every updateStudent of the sequence is for a student that is in the collection
  when the call is made.\<close>

fun updates_target_students :: "state \<Rightarrow> op list \<Rightarrow> bool" where
  "updates_target_students st [] = True"
| "updates_target_students st (UpdateStudent studentId updatedData now # xs) =
     (studentId \<in> d_id ` set (students st)
      \<and> updates_target_students (apply_op st (UpdateStudent studentId updatedData now)) xs)"
| "updates_target_students st (x # xs) = updates_target_students (apply_op st x) xs"

section \<open>Attendance (addAttendance)\<close>

text \<open>
  A JavaScript \<open>Date\<close> holds a time value in milliseconds since the epoch, or is
  invalid. \<open>toISOString\<close> throws a RangeError on an invalid date; otherwise the part
  before \<open>T\<close> is the UTC calendar day, written \<open>YYYY-MM-DD\<close> (with a sign
  and six digits for a year outside 0..9999). The day of a time value is the number of
  whole days since the epoch.
\<close>

datatype js_date = Date int | InvalidDate

datatype error = RangeError

definition utc_day :: "int \<Rightarrow> int" where
  "utc_day t = t div 86400000"

text \<open>Year, month and day of a day number (proleptic Gregorian calendar).\<close>

definition civil_from_days :: "int \<Rightarrow> int \<times> int \<times> int" where
  "civil_from_days z0 =
     (let z = z0 + 719468;
          era = z div 146097;
          doe = z - era * 146097;
          yoe = (doe - doe div 1460 + doe div 36524 - doe div 146096) div 365;
          y = yoe + era * 400;
          doy = doe - (365 * yoe + yoe div 4 - yoe div 100);
          mp = (5 * doy + 2) div 153;
          d = doy - (153 * mp + 2) div 5 + 1;
          m = (if mp < 10 then mp + 3 else mp - 9)
      in (if m \<le> 2 then y + 1 else y, m, d))"

primrec dec_digits :: "nat \<Rightarrow> nat \<Rightarrow> string" where
  "dec_digits 0 n = []"
| "dec_digits (Suc w) n = dec_digits w (n div 10) @ [''0123456789'' ! (n mod 10)]"

definition iso_year :: "int \<Rightarrow> string" where
  "iso_year y =
     (if 0 \<le> y \<and> y \<le> 9999 then dec_digits 4 (nat y)
      else (if y < 0 then ''-'' else ''+'') @ dec_digits 6 (nat \<bar>y\<bar>))"

definition iso_date :: "int \<Rightarrow> string" where
  "iso_date day =
     (case civil_from_days day of
        (y, m, d) \<Rightarrow> iso_year y @ ''-'' @ dec_digits 2 (nat m) @ ''-'' @ dec_digits 2 (nat d))"

text \<open>\<open>date.toISOString().split('T')[0]\<close>\<close>

definition toISOString_date :: "js_date \<Rightarrow> error + string" where
  "toISOString_date date =
     (case date of
        InvalidDate \<Rightarrow> Inl RangeError
      | Date t \<Rightarrow>
          if \<bar>t\<bar> \<le> 8640000000000000 then Inr (iso_date (utc_day t)) else Inl RangeError)"

text \<open>The record handed to addAttendance, and the fields of a stored attendance
  document (\<open>date\<close> is stored as the timestamp of the same instant).\<close>

record attendance_record =
  n_studentId :: doc_id
  n_classId :: doc_id
  n_instructorId :: doc_id
  n_date :: js_date
  n_status :: string

record attendance_fields =
  a_studentId :: doc_id
  a_classId :: doc_id
  a_instructorId :: doc_id
  a_date :: timestamp
  a_status :: string

text \<open>\<open>setDoc(ref, data, {merge: true})\<close>: a field present in the written data
  replaces the stored one, a field that is absent keeps it; a document that does not
  exist is created. The data addAttendance writes carries all five attendance fields,
  so \<open>d\<close> replaces them all, and both timestamps.\<close>

definition merge_field :: "'a option \<Rightarrow> 'a option \<Rightarrow> 'a option" where
  "merge_field written stored = (case written of Some v \<Rightarrow> Some v | None \<Rightarrow> stored)"

definition setDoc_merge ::
  "doc_id \<Rightarrow> 'f \<Rightarrow> timestamp option \<Rightarrow> timestamp option \<Rightarrow> 'f collection \<Rightarrow> 'f collection" where
  "setDoc_merge i d created updated col =
     (if i \<in> d_id ` set col
      then map (\<lambda>x. if d_id x = i
                     then x\<lparr>d_data := d, createdAt := merge_field created (createdAt x),
                            updatedAt := merge_field updated (updatedAt x)\<rparr>
                     else x) col
      else col @ [\<lparr>d_id = i, d_data = d, createdAt = created, updatedAt = updated\<rparr>])"

definition attendanceDocId :: "doc_id \<Rightarrow> doc_id \<Rightarrow> doc_id \<Rightarrow> string \<Rightarrow> doc_id" where
  "attendanceDocId studentId cid instructorId day =
     studentId @ ''-'' @ cid @ ''-'' @ instructorId @ ''-'' @ day"

text \<open>The two clock readings are those of \<open>createdAt: Timestamp.now()\<close> and
  \<open>updatedAt: Timestamp.now()\<close>.\<close>

definition addAttendance ::
  "timestamp \<Rightarrow> timestamp \<Rightarrow> attendance_record \<Rightarrow> attendance_fields collection
     \<Rightarrow> error + attendance_fields collection" where
  "addAttendance now_created now_updated newAttendanceRecord col =
     (case n_date newAttendanceRecord of
        InvalidDate \<Rightarrow> Inl RangeError
      | Date t \<Rightarrow>
          (case toISOString_date (Date t) of
             Inl e \<Rightarrow> Inl e
           | Inr day \<Rightarrow>
               (let attendanceDocId' = attendanceDocId (n_studentId newAttendanceRecord)
                      (n_classId newAttendanceRecord) (n_instructorId newAttendanceRecord) day
                in Inr (setDoc_merge attendanceDocId'
                     \<lparr>a_studentId = n_studentId newAttendanceRecord,
                      a_classId = n_classId newAttendanceRecord,
                      a_instructorId = n_instructorId newAttendanceRecord,
                      a_date = t,
                      a_status = n_status newAttendanceRecord\<rparr>
                     (Some now_created) (Some now_updated) col))))"

text \<open>The key of a stored document, from its own fields; a document is for a session
  (student, class, instructor, day) when its fields name that session.\<close>

definition key_of_fields :: "attendance_fields \<Rightarrow> doc_id" where
  "key_of_fields f =
     attendanceDocId (a_studentId f) (a_classId f) (a_instructorId f) (iso_date (utc_day (a_date f)))"


text \<open>The attendance collection as addAttendance builds it: document ids are unique,
  and every document is stored under the key of its fields.\<close>

definition keyed :: "attendance_fields collection \<Rightarrow> bool" where
  "keyed col = (distinct (map d_id col) \<and> list_all (\<lambda>x. d_id x = key_of_fields (d_data x)) col)"

section \<open>Export of the students of the selected classes\<close>













section \<open>Example data\<close>

definition example_student :: "doc_id option \<Rightarrow> student_fields" where
  "example_student k =
     \<lparr>s_name = ''Sara'', s_phone = ''0912345678'', s_email = [], s_paid = False,
      classId = k, s_studentType = ''local''\<rparr>"

definition example_class :: "doc_id \<Rightarrow> string \<Rightarrow> doc_id list \<Rightarrow> class_fields document" where
  "example_class i n ids =
     \<lparr>d_id = i, d_data = \<lparr>c_name = n, c_description = [], c_students = ids, c_instructors = []\<rparr>,
      createdAt = Some 0, updatedAt = None\<rparr>"

definition two_classes :: state where
  "two_classes = \<lparr>students = [], classes = [example_class ''c1'' ''A'' [], example_class ''c2'' ''B'' []]\<rparr>"

definition add_then_move :: "op list" where
  "add_then_move =
     [AddStudent ''s1'' 1 (example_student (Some ''c1'')),
      UpdateStudent ''s1'' (example_student (Some ''c2'')) 2]"





definition one_class :: state where
  "one_class = \<lparr>students = [], classes = [example_class ''c1'' ''A'' []]\<rparr>"

definition update_absent_twice :: "op list" where
  "update_absent_twice =
     [UpdateStudent ''ghost'' (example_student (Some ''c1'')) 1,
      UpdateStudent ''ghost'' (example_student (Some ''c1'')) 2]"

definition example_student_doc :: "doc_id \<Rightarrow> doc_id option \<Rightarrow> student_fields document" where
  "example_student_doc i k =
     \<lparr>d_id = i, d_data = example_student k, createdAt = Some 0, updatedAt = None\<rparr>"

definition three_students :: state where
  "three_students =
     \<lparr>students = [example_student_doc ''s1'' (Some ''c1''), example_student_doc ''s2'' (Some ''c1''),
                  example_student_doc ''s3'' (Some ''c2'')],
      classes = [example_class ''c1'' ''A'' [''s1'', ''s2''], example_class ''c2'' ''B'' [''s3'']]\<rparr>"


definition example_attendance :: "int \<Rightarrow> string \<Rightarrow> attendance_record" where
  "example_attendance t status =
     \<lparr>n_studentId = ''s1'', n_classId = ''c1'', n_instructorId = ''i1'',
      n_date = Date t, n_status = status\<rparr>"

definition example_attendance_doc ::
  "int \<Rightarrow> string \<Rightarrow> timestamp \<Rightarrow> timestamp \<Rightarrow> attendance_fields document" where
  "example_attendance_doc t status created updated =
     \<lparr>d_id = ''s1-c1-i1-2024-03-05'',
      d_data = \<lparr>a_studentId = ''s1'', a_classId = ''c1'', a_instructorId = ''i1'',
                a_date = t, a_status = status\<rparr>,
      createdAt = Some created, updatedAt = Some updated\<rparr>"

section \<open>Facts about the accumulators\<close>




lemma or_zero_simps [simp]: "or_zero None = 0" "or_zero (Some v) = v"
  by (simp_all add: or_zero_def)







section \<open>Financial overview\<close>



section \<open>Expenses by category\<close>







section \<open>Revenue by course\<close>













section \<open>Students and classes agree\<close>

lemma updateDocument_map:
  "updateDocument i f now col =
     map (\<lambda>d. if d_id d = i then d\<lparr>d_data := f (d_data d), updatedAt := Some now\<rparr> else d) col"
proof (cases "i \<in> d_id ` set col")
  case True
  then show ?thesis by (simp add: updateDocument_def)
next
  case False
  then have "map (\<lambda>d. if d_id d = i then d\<lparr>d_data := f (d_data d), updatedAt := Some now\<rparr> else d) col
      = col"
    by (intro map_idI) auto
  with False show ?thesis by (simp add: updateDocument_def)
qed

lemma find_doc_SomeD: "find_doc col i = Some d \<Longrightarrow> d \<in> set col \<and> d_id d = i"
  by (auto simp: find_doc_def find_Some_iff)

lemma find_doc_None_iff: "find_doc col i = None \<longleftrightarrow> i \<notin> d_id ` set col"
  by (auto simp: find_doc_def find_None_iff)

lemma all_agree_iff:
  "all_agree st \<longleftrightarrow> (\<forall>s\<in>set (students st). \<forall>c\<in>set (classes st). agree s c)"
  by (simp add: all_agree_def list_all_iff)

lemma fresh_id_iff:
  "fresh_id st i \<longleftrightarrow> i \<noteq> [] \<and> i \<notin> d_id ` set (students st)
      \<and> (\<forall>c\<in>set (classes st). i \<notin> set (c_students (d_data c)))"
  by (simp add: fresh_id_def list_all_iff)

lemma merge_students_only [simp]:
  "c_students (merge_class (students_only ids) c) = ids"
  by (simp add: merge_class_def students_only_def)

lemma students_updateClassDoc [simp]: "students (updateClassDoc i u now st) = students st"
  by (simp add: updateClassDoc_def)

lemma classes_updateClassDoc:
  "classes (updateClassDoc i u now st) =
     map (\<lambda>d. if d_id d = i then d\<lparr>d_data := merge_class u (d_data d), updatedAt := Some now\<rparr> else d)
       (classes st)"
  by (simp add: updateClassDoc_def updateDocument_map)

lemma ball_updateDocument:
  "(\<forall>x\<in>set (updateDocument i f now col). P x) \<longleftrightarrow>
   (\<forall>d\<in>set col. if d_id d = i then P (d\<lparr>d_data := f (d_data d), updatedAt := Some now\<rparr>) else P d)"
  by (auto simp: updateDocument_map)

lemma ball_classes_updateClassDoc:
  "(\<forall>x\<in>set (classes (updateClassDoc i u now st)). P x) \<longleftrightarrow>
   (\<forall>d\<in>set (classes st).
      if d_id d = i then P (d\<lparr>d_data := merge_class u (d_data d), updatedAt := Some now\<rparr>) else P d)"
  by (simp add: updateClassDoc_def ball_updateDocument)

lemma ids_updateDocument [simp]: "map d_id (updateDocument i f now col) = map d_id col"
  by (simp add: updateDocument_map comp_def if_distrib cong: if_cong)

lemma class_ids_updateClassDoc [simp]:
  "map d_id (classes (updateClassDoc i u now st)) = map d_id (classes st)"
  by (simp add: updateClassDoc_def)

lemma set_ids_updateClassDoc [simp]:
  "d_id ` set (classes (updateClassDoc i u now st)) = d_id ` set (classes st)"
  by (simp only: set_map [symmetric] class_ids_updateClassDoc)

lemma addStudent_students:
  "students (addStudent new_id now ns st) = addDocument new_id now ns (students st)"
  by (simp add: addStudent_def Let_def split: option.splits)

lemma addStudent_classes_found:
  assumes "new_id \<noteq> []" and "classId ns = Some cid" and "cid \<noteq> []"
    and "find_doc (classes st) cid = Some cur"
  shows "classes (addStudent new_id now ns st) =
     classes (updateClassDoc cid (students_only (c_students (d_data cur) @ [new_id])) now st)"
  using assms by (simp add: addStudent_def Let_def truthy_def updateClassDoc_def)

lemma addStudent_classes_other:
  assumes "\<not> truthy (classId ns) \<or> find_doc (classes st) (the (classId ns)) = None"
  shows "classes (addStudent new_id now ns st) = classes st"
  using assms by (auto simp: addStudent_def Let_def)

lemma addStudent_all_agree:
  assumes agr: "all_agree st" and ne: "[] \<notin> d_id ` set (classes st)" and fr: "fresh_id st new_id"
  shows "all_agree (addStudent new_id now ns st)"
proof -
  from fr have f1: "new_id \<noteq> []" and f2: "new_id \<notin> d_id ` set (students st)"
    and f3: "\<forall>c\<in>set (classes st). new_id \<notin> set (c_students (d_data c))"
    by (simp_all add: fresh_id_iff)
  from agr have old: "\<forall>s\<in>set (students st). \<forall>c\<in>set (classes st). agree s c"
    by (simp add: all_agree_iff)
  show ?thesis
  proof (cases "truthy (classId ns) \<and> find_doc (classes st) (the (classId ns)) \<noteq> None")
    case True
    then obtain cid cur where c: "classId ns = Some cid" "cid \<noteq> []"
      "find_doc (classes st) cid = Some cur"
      by (auto simp: truthy_def split: option.splits)
    from find_doc_SomeD [OF c(3)] have cur: "cur \<in> set (classes st)" "d_id cur = cid"
      by simp_all
    have "\<forall>s\<in>set (students st). agree s cur"
      using old cur by blast
    then show ?thesis
      unfolding all_agree_iff addStudent_students addStudent_classes_found [OF f1 c]
        ball_classes_updateClassDoc
      using old f2 f3 cur c
      by (auto simp: addDocument_def agree_def)
  next
    case False
    then have cls: "classes (addStudent new_id now ns st) = classes st"
      by (intro addStudent_classes_other) auto
    from ne have ne': "\<forall>c\<in>set (classes st). d_id c \<noteq> []"
      by force
    from False have "\<forall>c\<in>set (classes st). classId ns \<noteq> Some (d_id c)"
      using ne' by (force simp: truthy_def find_doc_None_iff split: option.splits)
    then show ?thesis
      unfolding all_agree_iff addStudent_students cls
      using old f3 by (auto simp: addDocument_def agree_def)
  qed
qed

text \<open>a reference that is falsy or dangling names no class of the collection\<close>
lemma no_target_class:
  assumes ne: "[] \<notin> d_id ` set cls"
    and "\<not> (truthy k \<and> find_doc cls (the k) \<noteq> None)"
  shows "\<forall>c\<in>set cls. k \<noteq> Some (d_id c)"
proof
  fix c assume c: "c \<in> set cls"
  show "k \<noteq> Some (d_id c)"
  proof
    assume k: "k = Some (d_id c)"
    from c ne have "d_id c \<noteq> []" by force
    with k have "truthy k" by (simp add: truthy_def)
    moreover from c k have "find_doc cls (the k) \<noteq> None"
      by (simp add: find_doc_None_iff)
    ultimately show False using assms(2) by simp
  qed
qed

lemma target_class:
  assumes "truthy k \<and> find_doc cls (the k) \<noteq> None"
  obtains i c where "k = Some i" "i \<noteq> []" "find_doc cls i = Some c" "c \<in> set cls" "d_id c = i"
proof -
  from assms obtain i where k: "k = Some i" "i \<noteq> []"
    by (auto simp: truthy_def split: option.splits)
  with assms obtain c where c: "find_doc cls i = Some c" by auto
  from find_doc_SomeD [OF c] k c that show thesis by blast
qed

lemma updateStudent_students:
  "students (updateStudent sid ud now st) = updateDocument sid (\<lambda>_. ud) now (students st)"
  by (simp add: updateStudent_def Let_def split: option.splits)

lemma old_class_agree:
  assumes "all_agree st" and "s \<in> set (students st)" and "c \<in> set (classes st)"
  shows "(old_class st (d_id s) = Some (d_id c)) = (d_id s \<in> set (c_students (d_data c)))"
proof -
  from assms(2) obtain s0 where s0: "find_doc (students st) (d_id s) = Some s0"
    using find_doc_None_iff [of "students st" "d_id s"] by auto
  from find_doc_SomeD [OF s0] have "s0 \<in> set (students st)" "d_id s0 = d_id s"
    by simp_all
  with assms(1,3) have "agree s0 c" by (simp add: all_agree_iff)
  with s0 \<open>d_id s0 = d_id s\<close> show ?thesis
    by (simp add: old_class_def agree_def)
qed

lemma updateStudent_classes:
  "classes (updateStudent sid ud now st) =
     (if old_class st sid \<noteq> classId ud
      then join_new st sid (classId ud) now (leave_old st sid now)
      else classes st)"
  by (simp add: updateStudent_def Let_def old_class_def leave_old_def join_new_def
      updateClassDoc_def split: option.splits)

lemma ball_set_students:
  "(\<forall>c'\<in>set (updateDocument i (merge_class (students_only xs)) now cls).
       P (d_id c') (c_students (d_data c')))
   \<longleftrightarrow> (\<forall>c\<in>set cls. P (d_id c) (if d_id c = i then xs else c_students (d_data c)))"
  by (auto simp: ball_updateDocument)

lemma first_class_in:
  assumes "c \<in> set (classes st)"
  shows "first_class st (d_id c) \<in> set (classes st) \<and> d_id (first_class st (d_id c)) = d_id c
    \<and> find_doc (classes st) (d_id c) = Some (first_class st (d_id c))"
proof -
  from assms obtain c0 where c0: "find_doc (classes st) (d_id c) = Some c0"
    using find_doc_None_iff [of "classes st" "d_id c"] by auto
  from find_doc_SomeD [OF c0] c0 show ?thesis by (simp add: first_class_def)
qed

lemma leave_old_ball:
  "(\<forall>c'\<in>set (leave_old st sid now). P (d_id c') (c_students (d_data c'))) \<longleftrightarrow>
   (\<forall>c\<in>set (classes st). P (d_id c)
      (if old_class st sid = Some (d_id c) \<and> d_id c \<noteq> []
       then filter (\<lambda>i. i \<noteq> sid) (c_students (d_data (first_class st (d_id c))))
       else c_students (d_data c)))"
proof (cases "truthy (old_class st sid) \<and> find_doc (classes st) (the (old_class st sid)) \<noteq> None")
  case True
  then obtain i c where k: "old_class st sid = Some i" "i \<noteq> []" "find_doc (classes st) i = Some c"
    by (rule target_class)
  then have "leave_old st sid now = updateDocument i
      (merge_class (students_only (filter (\<lambda>i. i \<noteq> sid) (c_students (d_data c))))) now (classes st)"
    by (simp add: leave_old_def truthy_def)
  with k show ?thesis
    by (auto simp: ball_set_students first_class_def)
next
  case False
  then have l: "leave_old st sid now = classes st"
    by (auto simp: leave_old_def Let_def)
  have "\<not> (old_class st sid = Some (d_id c) \<and> d_id c \<noteq> [])" if "c \<in> set (classes st)" for c
    using False that by (auto simp: truthy_def find_doc_None_iff)
  then show ?thesis unfolding l by auto
qed

lemma join_new_ball:
  "(\<forall>c'\<in>set (join_new st sid k now cls). P (d_id c') (c_students (d_data c'))) \<longleftrightarrow>
   (\<forall>c\<in>set cls. P (d_id c)
      (if k = Some (d_id c) \<and> d_id c \<noteq> [] \<and> d_id c \<in> d_id ` set (classes st)
       then c_students (d_data (first_class st (d_id c))) @ [sid]
       else c_students (d_data c)))"
proof (cases "truthy k \<and> find_doc (classes st) (the k) \<noteq> None")
  case True
  then obtain i c where k: "k = Some i" "i \<noteq> []" "find_doc (classes st) i = Some c"
    "c \<in> set (classes st)" "d_id c = i"
    by (rule target_class)
  then have j: "join_new st sid k now cls = updateDocument i
      (merge_class (students_only (c_students (d_data c) @ [sid]))) now cls"
    by (simp add: join_new_def truthy_def)
  from k(4,5) have m: "i \<in> d_id ` set (classes st)"
    by force
  have f: "first_class st i = c"
    using k(3) by (simp add: first_class_def)
  have e: "(if k = Some j \<and> j \<noteq> [] \<and> j \<in> d_id ` set (classes st)
             then c_students (d_data (first_class st j)) @ [sid] else ys)
      = (if j = i then c_students (d_data c) @ [sid] else ys)" for j ys
  proof (cases "j = i")
    case True
    then show ?thesis using k(1,2) m f by simp
  next
    case False
    then show ?thesis using k(1) by simp
  qed
  show ?thesis
    unfolding j e by (rule ball_set_students)
next
  case False
  then have l: "join_new st sid k now cls = cls"
    by (auto simp: join_new_def)
  have "\<not> (k = Some (d_id c) \<and> d_id c \<noteq> [] \<and> d_id c \<in> d_id ` set (classes st))" for c
    using False by (auto simp: truthy_def find_doc_None_iff)
  then show ?thesis unfolding l by auto
qed

lemma ids_leave_old: "d_id ` set (leave_old st sid now) = d_id ` set (classes st)"
proof -
  have "map d_id (leave_old st sid now) = map d_id (classes st)"
    by (simp add: leave_old_def Let_def split: option.splits)
  then show ?thesis by (simp only: set_map [symmetric])
qed

lemma updateStudent_all_agree:
  assumes agr: "all_agree st" and ne: "[] \<notin> d_id ` set (classes st)"
  shows "all_agree (updateStudent sid ud now st)"
proof -
  let ?S = "set (students st)" and ?C = "set (classes st)"
  let ?old = "old_class st sid" and ?new = "classId ud"
  have ne': "\<forall>c\<in>?C. d_id c \<noteq> []"
    using ne by force
  have mem: "\<forall>c\<in>?C. d_id c \<in> d_id ` ?C"
    by simp
  have old: "\<forall>s\<in>?S. \<forall>c\<in>?C. (classId (d_data s) = Some (d_id c)) = (d_id s \<in> set (c_students (d_data c)))"
    using agr by (simp add: all_agree_iff agree_def)
  have fst1: "\<forall>c\<in>?C. first_class st (d_id c) \<in> ?C"
    and fst2: "\<forall>c\<in>?C. d_id (first_class st (d_id c)) = d_id c"
    using first_class_in by blast+
  have target: "\<forall>s\<in>?S. d_id s = sid \<longrightarrow>
      (\<forall>c\<in>?C. (?old = Some (d_id c)) = (sid \<in> set (c_students (d_data c))))"
    using old_class_agree [OF agr] by blast
  have goal: "\<forall>s\<in>?S. \<forall>c\<in>?C.
      ((if d_id s = sid then ?new else classId (d_data s)) = Some (d_id c))
      = (d_id s \<in> set (if ?old = ?new then c_students (d_data c)
           else if ?new = Some (d_id c)
           then c_students (d_data (first_class st (d_id c))) @ [sid]
           else if ?old = Some (d_id c)
           then filter (\<lambda>i. i \<noteq> sid) (c_students (d_data (first_class st (d_id c))))
           else c_students (d_data c)))"
  proof (intro ballI)
    fix s c assume s: "s \<in> ?S" and c: "c \<in> ?C"
    let ?f = "first_class st (d_id c)"
    from c fst1 fst2 have f: "?f \<in> ?C" "d_id ?f = d_id c" by simp_all
    from old s c have a1: "(classId (d_data s) = Some (d_id c)) = (d_id s \<in> set (c_students (d_data c)))"
      by blast
    from old s f have a2: "(classId (d_data s) = Some (d_id c)) = (d_id s \<in> set (c_students (d_data ?f)))"
      by force
    show "((if d_id s = sid then ?new else classId (d_data s)) = Some (d_id c))
      = (d_id s \<in> set (if ?old = ?new then c_students (d_data c)
           else if ?new = Some (d_id c)
           then c_students (d_data ?f) @ [sid]
           else if ?old = Some (d_id c)
           then filter (\<lambda>i. i \<noteq> sid) (c_students (d_data ?f))
           else c_students (d_data c)))"
    proof (cases "d_id s = sid")
      case True
      with target s c have t: "(?old = Some (d_id c)) = (sid \<in> set (c_students (d_data c)))"
        by blast
      from True show ?thesis using t by auto
    next
      case False
      then show ?thesis using a1 a2 by auto
    qed
  qed
  define A where "A = (\<lambda>(i::doc_id) (xs::doc_id list).
      \<forall>s\<in>set (updateDocument sid (\<lambda>_. ud) now (students st)).
         (classId (d_data s) = Some i) = (d_id s \<in> set xs))"
  have A_iff: "A i xs \<longleftrightarrow> (\<forall>s\<in>?S.
       ((if d_id s = sid then ?new else classId (d_data s)) = Some i) = (d_id s \<in> set xs))" for i xs
    unfolding A_def ball_updateDocument by (auto split: if_splits)
  have flip: "all_agree (updateStudent sid ud now st) \<longleftrightarrow>
      (\<forall>c\<in>set (classes (updateStudent sid ud now st)). A (d_id c) (c_students (d_data c)))"
    unfolding all_agree_iff agree_def A_def updateStudent_students by blast
  show ?thesis
  proof (cases "?old = ?new")
    case True
    then have "classes (updateStudent sid ud now st) = classes st"
      by (simp add: updateStudent_classes)
    moreover have "A (d_id c) (c_students (d_data c))" if "c \<in> ?C" for c
      unfolding A_iff using goal that True by simp
    ultimately show ?thesis unfolding flip by simp
  next
    case False
    then have cl: "classes (updateStudent sid ud now st)
        = join_new st sid ?new now (leave_old st sid now)"
      by (simp add: updateStudent_classes)
    have "(\<forall>c'\<in>set (join_new st sid ?new now (leave_old st sid now)).
            A (d_id c') (c_students (d_data c')))
       \<longleftrightarrow> (\<forall>c\<in>set (leave_old st sid now). A (d_id c)
            (if ?new = Some (d_id c) \<and> d_id c \<noteq> [] \<and> d_id c \<in> d_id ` ?C
             then c_students (d_data (first_class st (d_id c))) @ [sid]
             else c_students (d_data c)))"
      by (rule join_new_ball)
    also have "\<dots> \<longleftrightarrow> (\<forall>c\<in>?C. A (d_id c)
            (if ?new = Some (d_id c) \<and> d_id c \<noteq> [] \<and> d_id c \<in> d_id ` ?C
             then c_students (d_data (first_class st (d_id c))) @ [sid]
             else if ?old = Some (d_id c) \<and> d_id c \<noteq> []
             then filter (\<lambda>i. i \<noteq> sid) (c_students (d_data (first_class st (d_id c))))
             else c_students (d_data c)))"
      by (rule leave_old_ball [where P = "\<lambda>i xs. A i
            (if ?new = Some i \<and> i \<noteq> [] \<and> i \<in> d_id ` ?C
             then c_students (d_data (first_class st i)) @ [sid] else xs)"])
    also have "\<dots>"
    proof (intro ballI)
      fix c assume c: "c \<in> ?C"
      with ne' mem have k: "d_id c \<noteq> []" "d_id c \<in> d_id ` ?C" by simp_all
      have "A (d_id c) (if ?old = ?new then c_students (d_data c)
           else if ?new = Some (d_id c)
           then c_students (d_data (first_class st (d_id c))) @ [sid]
           else if ?old = Some (d_id c)
           then filter (\<lambda>i. i \<noteq> sid) (c_students (d_data (first_class st (d_id c))))
           else c_students (d_data c))"
        unfolding A_iff using goal c by blast
      with False k show "A (d_id c)
            (if ?new = Some (d_id c) \<and> d_id c \<noteq> [] \<and> d_id c \<in> d_id ` ?C
             then c_students (d_data (first_class st (d_id c))) @ [sid]
             else if ?old = Some (d_id c) \<and> d_id c \<noteq> []
             then filter (\<lambda>i. i \<noteq> sid) (c_students (d_data (first_class st (d_id c))))
             else c_students (d_data c))"
        by (auto split: if_splits)
    qed
    finally show ?thesis unfolding flip cl .
  qed
qed

lemma deleteStudent_students:
  "students (deleteStudent sid now st) = deleteDocument sid (students st)"
  by (simp add: deleteStudent_def Let_def split: option.splits)

lemma deleteStudent_classes: "classes (deleteStudent sid now st) = leave_old st sid now"
  by (simp add: deleteStudent_def Let_def leave_old_def old_class_def updateClassDoc_def
      split: option.splits)

lemma deleteStudent_all_agree:
  assumes agr: "all_agree st"
  shows "all_agree (deleteStudent sid now st)"
proof -
  let ?S = "set (students st)" and ?C = "set (classes st)"
  define A where "A = (\<lambda>(i::doc_id) (xs::doc_id list).
      \<forall>s\<in>set (deleteDocument sid (students st)).
         (classId (d_data s) = Some i) = (d_id s \<in> set xs))"
  have flip: "all_agree (deleteStudent sid now st) \<longleftrightarrow>
      (\<forall>c\<in>set (leave_old st sid now). A (d_id c) (c_students (d_data c)))"
    unfolding all_agree_iff agree_def A_def deleteStudent_students deleteStudent_classes by blast
  have old: "\<forall>s\<in>?S. \<forall>c\<in>?C. (classId (d_data s) = Some (d_id c)) = (d_id s \<in> set (c_students (d_data c)))"
    using agr by (simp add: all_agree_iff agree_def)
  have "\<forall>c\<in>?C. A (d_id c)
      (if old_class st sid = Some (d_id c) \<and> d_id c \<noteq> []
       then filter (\<lambda>i. i \<noteq> sid) (c_students (d_data (first_class st (d_id c))))
       else c_students (d_data c))"
  proof (intro ballI)
    fix c assume c: "c \<in> ?C"
    let ?f = "first_class st (d_id c)"
    from first_class_in [OF c] have f: "?f \<in> ?C" "d_id ?f = d_id c" by simp_all
    have "(classId (d_data s) = Some (d_id c)) = (d_id s \<in> set (c_students (d_data c)))"
      and "(classId (d_data s) = Some (d_id c)) = (d_id s \<in> set (c_students (d_data ?f)))"
      if "s \<in> ?S" for s
    proof -
      from old that c
      show "(classId (d_data s) = Some (d_id c)) = (d_id s \<in> set (c_students (d_data c)))"
        by blast
      from old that f(1)
      have "(classId (d_data s) = Some (d_id ?f)) = (d_id s \<in> set (c_students (d_data ?f)))"
        by blast
      then show "(classId (d_data s) = Some (d_id c)) = (d_id s \<in> set (c_students (d_data ?f)))"
        by (simp only: f(2))
    qed
    then show "A (d_id c)
      (if old_class st sid = Some (d_id c) \<and> d_id c \<noteq> []
       then filter (\<lambda>i. i \<noteq> sid) (c_students (d_data ?f))
       else c_students (d_data c))"
      unfolding A_def deleteDocument_def by simp
  qed
  then show ?thesis
    unfolding flip by (simp only: leave_old_ball [where P = A])
qed


lemma unassign_students_cases:
  assumes "s' \<in> set (unassign_students xs now col)"
  shows "(s' \<in> set col \<and> d_id s' \<notin> d_id ` set xs)
       \<or> (classId (d_data s') = None \<and> d_id s' \<in> d_id ` set xs)"
  using assms
proof (induction xs arbitrary: col)
  case Nil
  then show ?case by simp
next
  case (Cons x rest)
  let ?col1 = "updateDocument (d_id x) (\<lambda>_. (d_data x)\<lparr>classId := None\<rparr>) now col"
  from Cons.prems have "s' \<in> set (unassign_students rest now ?col1)"
    by simp
  from Cons.IH [OF this] show ?case
  proof
    assume a: "s' \<in> set ?col1 \<and> d_id s' \<notin> d_id ` set rest"
    then obtain s where s: "s \<in> set col"
      "s' = (if d_id s = d_id x
             then s\<lparr>d_data := (d_data x)\<lparr>classId := None\<rparr>, updatedAt := Some now\<rparr> else s)"
      by (auto simp: updateDocument_map)
    show ?thesis
    proof (cases "d_id s = d_id x")
      case True
      with s show ?thesis by simp
    next
      case False
      with s a show ?thesis by simp
    qed
  next
    assume "classId (d_data s') = None \<and> d_id s' \<in> d_id ` set rest"
    then show ?thesis by auto
  qed
qed

lemma deleteClass_students:
  "students (deleteClass cid now st) =
     unassign_students (filter (\<lambda>s. classId (d_data s) = Some cid) (students st)) now (students st)"
  by (simp add: deleteClass_def deleteClass_unassign_def Let_def)

lemma deleteClass_classes: "classes (deleteClass cid now st) = deleteDocument cid (classes st)"
  by (simp add: deleteClass_def deleteClass_unassign_def Let_def)

lemma deleteClass_all_agree:
  assumes agr: "all_agree st"
  shows "all_agree (deleteClass cid now st)"
  unfolding all_agree_iff deleteClass_students deleteClass_classes
proof (intro ballI)
  let ?xs = "filter (\<lambda>s. classId (d_data s) = Some cid) (students st)"
  fix s' c
  assume s': "s' \<in> set (unassign_students ?xs now (students st))"
    and "c \<in> set (deleteDocument cid (classes st))"
  then have c: "c \<in> set (classes st)" "d_id c \<noteq> cid"
    by (simp_all add: deleteDocument_def)
  from unassign_students_cases [OF s'] show "agree s' c"
  proof
    assume "s' \<in> set (students st) \<and> d_id s' \<notin> d_id ` set ?xs"
    with agr c show ?thesis by (simp add: all_agree_iff)
  next
    assume a: "classId (d_data s') = None \<and> d_id s' \<in> d_id ` set ?xs"
    then obtain x where x: "x \<in> set (students st)" "classId (d_data x) = Some cid" "d_id x = d_id s'"
      by auto
    with agr c have "agree x c" by (simp add: all_agree_iff)
    with x c a show ?thesis by (simp add: agree_def)
  qed
qed

lemma class_ids_apply_op:
  "d_id ` set (classes (apply_op st x)) \<subseteq> d_id ` set (classes st)"
proof (cases x)
  case (AddStudent new_id now ns)
  have "map d_id (classes (addStudent new_id now ns st)) = map d_id (classes st)"
    by (simp add: addStudent_def Let_def split: option.splits)
  then have "d_id ` set (classes (addStudent new_id now ns st)) = d_id ` set (classes st)"
    by (simp only: set_map [symmetric])
  with AddStudent show ?thesis by simp
next
  case (UpdateStudent sid ud now)
  have "map d_id (classes (updateStudent sid ud now st)) = map d_id (classes st)"
    by (simp add: updateStudent_def Let_def split: option.splits)
  then have "d_id ` set (classes (updateStudent sid ud now st)) = d_id ` set (classes st)"
    by (simp only: set_map [symmetric])
  with UpdateStudent show ?thesis by simp
next
  case (DeleteStudent sid now)
  then show ?thesis by (simp add: deleteStudent_classes ids_leave_old)
next
  case (DeleteClass cid now)
  then show ?thesis by (auto simp: deleteClass_classes deleteDocument_def)
qed

lemma consistent_apply_op:
  assumes "consistent st" and "generated_ids_fresh st [x]"
  shows "consistent (apply_op st x)"
proof -
  from assms(1) have agr: "all_agree st" and ne: "[] \<notin> d_id ` set (classes st)"
    by (simp_all add: consistent_def)
  have "all_agree (apply_op st x)"
  proof (cases x)
    case (AddStudent new_id now ns)
    with assms(2) have "fresh_id st new_id" by simp
    with AddStudent show ?thesis by (simp add: addStudent_all_agree [OF agr ne])
  next
    case (UpdateStudent sid ud now)
    then show ?thesis by (simp add: updateStudent_all_agree [OF agr ne])
  next
    case (DeleteStudent sid now)
    then show ?thesis by (simp add: deleteStudent_all_agree [OF agr])
  next
    case (DeleteClass cid now)
    then show ?thesis by (simp add: deleteClass_all_agree [OF agr])
  qed
  moreover have "[] \<notin> d_id ` set (classes (apply_op st x))"
    using class_ids_apply_op [of st x] ne by blast
  ultimately show ?thesis by (simp add: consistent_def)
qed

lemma generated_ids_fresh_Cons:
  "generated_ids_fresh st (x # xs) \<longleftrightarrow>
     generated_ids_fresh st [x] \<and> generated_ids_fresh (apply_op st x) xs"
  by (cases x) simp_all

text \<open>
  Claim C1. From a consistent state, after any sequence of addStudent, updateStudent,
  deleteStudent and deleteClass (the ids generated for new students being new), the
  state is consistent: for every student s and every class c of the collections,
  s.classId is c.id exactly when c.students contains s.id.
\<close>

theorem student_class_agreement_preserved:
  assumes "consistent st" and "generated_ids_fresh st ops"
  shows "consistent (run st ops)
    \<and> (\<forall>s\<in>set (students (run st ops)). \<forall>c\<in>set (classes (run st ops)).
         (classId (d_data s) = Some (d_id c)) = (d_id s \<in> set (c_students (d_data c))))"
proof -
  have "consistent (run st ops)"
    using assms
  proof (induction ops arbitrary: st)
    case Nil
    then show ?case by simp
  next
    case (Cons x xs)
    from Cons.prems(2) have "generated_ids_fresh st [x]" "generated_ids_fresh (apply_op st x) xs"
      by (simp_all only: generated_ids_fresh_Cons [of st x xs])
    with Cons.IH [OF consistent_apply_op [OF Cons.prems(1)]] show ?case by simp
  qed
  then show ?thesis
    by (simp add: consistent_def all_agree_iff agree_def)
qed

text \<open>The example of the specification: a student added with class c1 is listed by c1;
  moved to c2, the student is listed by c2 and no longer by c1.\<close>

theorem student_class_agreement_example:
  "consistent two_classes \<and> generated_ids_fresh two_classes add_then_move
   \<and> map (\<lambda>c. (d_id c, c_students (d_data c))) (classes (run two_classes (take 1 add_then_move)))
      = [(''c1'', [''s1'']), (''c2'', [])]
   \<and> map (\<lambda>c. (d_id c, c_students (d_data c))) (classes (run two_classes add_then_move))
      = [(''c1'', []), (''c2'', [''s1''])]
   \<and> map (\<lambda>s. (d_id s, classId (d_data s))) (students (run two_classes add_then_move))
      = [(''s1'', Some ''c2'')]
   \<and> consistent (run two_classes add_then_move)"
proof -
  have c: "consistent two_classes"
    by (simp add: consistent_def all_agree_def two_classes_def example_class_def)
  have f: "generated_ids_fresh two_classes add_then_move"
    by (simp add: add_then_move_def fresh_id_def two_classes_def example_class_def)
  have r1: "map (\<lambda>c. (d_id c, c_students (d_data c))) (classes (run two_classes (take 1 add_then_move)))
      = [(''c1'', [''s1'']), (''c2'', [])]"
    by (simp add: two_classes_def add_then_move_def example_class_def example_student_def
        addStudent_def find_doc_def truthy_def updateClassDoc_def
        updateDocument_def addDocument_def merge_class_def students_only_def Let_def)
  have r2: "map (\<lambda>c. (d_id c, c_students (d_data c))) (classes (run two_classes add_then_move))
      = [(''c1'', []), (''c2'', [''s1''])]"
    by (simp add: two_classes_def add_then_move_def example_class_def example_student_def
        addStudent_def updateStudent_def find_doc_def truthy_def updateClassDoc_def
        updateDocument_def addDocument_def merge_class_def students_only_def Let_def)
  have r3: "map (\<lambda>s. (d_id s, classId (d_data s))) (students (run two_classes add_then_move))
      = [(''s1'', Some ''c2'')]"
    by (simp add: two_classes_def add_then_move_def example_class_def example_student_def
        addStudent_def updateStudent_def find_doc_def truthy_def updateClassDoc_def
        updateDocument_def addDocument_def merge_class_def students_only_def Let_def)
  from student_class_agreement_preserved [OF c f] c f r1 r2 r3 show ?thesis
    by blast
qed

section \<open>Deleting a class\<close>



section \<open>Bulk assignment\<close>

lemma find_doc_updateDocument:
  "find_doc (updateDocument i f now col) j =
     (case find_doc col j of
        None \<Rightarrow> None
      | Some d \<Rightarrow> Some (if j = i then d\<lparr>d_data := f (d_data d), updatedAt := Some now\<rparr> else d))"
  unfolding updateDocument_map find_doc_def
  by (induction col) auto

text \<open>
  Claim C5. assignStudentsToClass, that is updateClass(classId, {students: ids}), on a
  class of the collection: the student collection is unchanged; the class document
  found under classId is the old one with its students replaced by exactly ids (and the
  update time stamped), and so is every document of that id; documents of other ids
  are found as before. In particular a student whose id is in ids and whose classId is
  not classId is still found unchanged, with that classId.
\<close>

theorem assignStudentsToClass_only_class_side:
  assumes "find_doc (classes st) cid = Some cls"
  shows "students (assignStudentsToClass cid ids now st) = students st
    \<and> find_doc (classes (assignStudentsToClass cid ids now st)) cid
        = Some (cls\<lparr>d_data := (d_data cls)\<lparr>c_students := ids\<rparr>, updatedAt := Some now\<rparr>)
    \<and> (\<forall>c\<in>set (classes (assignStudentsToClass cid ids now st)).
          d_id c = cid \<longrightarrow> c_students (d_data c) = ids)
    \<and> (\<forall>j. j \<noteq> cid \<longrightarrow>
          find_doc (classes (assignStudentsToClass cid ids now st)) j = find_doc (classes st) j)
    \<and> (\<forall>i\<in>set ids. \<forall>s. find_doc (students st) i = Some s \<and> classId (d_data s) \<noteq> Some cid
          \<longrightarrow> find_doc (students (assignStudentsToClass cid ids now st)) i = Some s
              \<and> classId (d_data s) \<noteq> Some cid)"
proof -
  let ?st' = "assignStudentsToClass cid ids now st"
  have s: "students ?st' = students st"
    by (simp add: assignStudentsToClass_def updateClass_def)
  have c: "classes ?st' = updateDocument cid (merge_class (students_only ids)) now (classes st)"
    by (simp add: assignStudentsToClass_def updateClass_def updateClassDoc_def)
  have m: "merge_class (students_only ids) x = x\<lparr>c_students := ids\<rparr>" for x
    by (simp add: merge_class_def students_only_def)
  have f: "find_doc (classes ?st') cid
        = Some (cls\<lparr>d_data := (d_data cls)\<lparr>c_students := ids\<rparr>, updatedAt := Some now\<rparr>)"
    using assms by (simp add: c find_doc_updateDocument m)
  have l: "\<forall>c\<in>set (classes ?st'). d_id c = cid \<longrightarrow> c_students (d_data c) = ids"
    unfolding c ball_updateDocument by (simp add: m)
  have o: "\<forall>j. j \<noteq> cid \<longrightarrow> find_doc (classes ?st') j = find_doc (classes st) j"
    by (simp add: c find_doc_updateDocument split: option.splits)
  show ?thesis
    using s f l o by simp
qed

theorem assignStudentsToClass_example:
  "find_doc (classes three_students) ''c2'' = Some (example_class ''c2'' ''B'' [''s3''])
   \<and> students (assignStudentsToClass ''c2'' [''s1'', ''s3''] 7 three_students)
        = students three_students
   \<and> map (\<lambda>c. (d_id c, c_students (d_data c)))
        (classes (assignStudentsToClass ''c2'' [''s1'', ''s3''] 7 three_students))
        = [(''c1'', [''s1'', ''s2'']), (''c2'', [''s1'', ''s3''])]
   \<and> map_option (\<lambda>s. classId (d_data s))
        (find_doc (students (assignStudentsToClass ''c2'' [''s1'', ''s3''] 7 three_students)) ''s1'')
        = Some (Some ''c1'')"
proof -
  have f: "find_doc (classes three_students) ''c2'' = Some (example_class ''c2'' ''B'' [''s3''])"
    by (simp add: three_students_def find_doc_def example_class_def)
  have c: "map (\<lambda>c. (d_id c, c_students (d_data c)))
        (classes (assignStudentsToClass ''c2'' [''s1'', ''s3''] 7 three_students))
        = [(''c1'', [''s1'', ''s2'']), (''c2'', [''s1'', ''s3''])]"
    by (simp add: three_students_def example_class_def assignStudentsToClass_def updateClass_def
        updateClassDoc_def updateDocument_def merge_class_def students_only_def)
  have s: "map_option (\<lambda>s. classId (d_data s)) (find_doc (students three_students) ''s1'')
        = Some (Some ''c1'')"
    by (simp add: three_students_def find_doc_def example_student_doc_def example_student_def)
  from assignStudentsToClass_only_class_side [OF f, of "[''s1'', ''s3'']" 7]
  have "students (assignStudentsToClass ''c2'' [''s1'', ''s3''] 7 three_students)
        = students three_students"
    by blast
  with f c s show ?thesis by simp
qed

section \<open>Class lists without duplicates\<close>

lemma no_duplicates_iff:
  "no_duplicates st \<longleftrightarrow> (\<forall>c\<in>set (classes st). distinct (c_students (d_data c)))"
  by (simp add: no_duplicates_def list_all_iff)

lemma addStudent_no_duplicates:
  assumes nd: "no_duplicates st" and fr: "fresh_id st new_id"
  shows "no_duplicates (addStudent new_id now ns st)"
proof (cases "new_id \<noteq> [] \<and> truthy (classId ns) \<and> find_doc (classes st) (the (classId ns)) \<noteq> None")
  case True
  then obtain cid cur where c: "classId ns = Some cid" "cid \<noteq> []"
    "find_doc (classes st) cid = Some cur"
    by (auto simp: truthy_def split: option.splits)
  from True have f1: "new_id \<noteq> []" by simp
  from find_doc_SomeD [OF c(3)] have cur: "cur \<in> set (classes st)"
    by simp
  with nd fr have "distinct (c_students (d_data cur) @ [new_id])"
    by (simp add: no_duplicates_iff fresh_id_iff)
  with nd show ?thesis
    unfolding no_duplicates_iff addStudent_classes_found [OF f1 c] ball_classes_updateClassDoc
    by simp
next
  case False
  then have "classes (addStudent new_id now ns st) = classes st"
    by (auto simp: addStudent_def Let_def)
  with nd show ?thesis by (simp add: no_duplicates_iff)
qed

lemma leave_old_distinct:
  assumes "\<forall>c\<in>set (classes st). distinct (c_students (d_data c))"
  shows "\<forall>c\<in>set (leave_old st sid now). distinct (c_students (d_data c))"
proof -
  have "\<forall>c\<in>set (classes st). distinct
      (if old_class st sid = Some (d_id c) \<and> d_id c \<noteq> []
       then filter (\<lambda>i. i \<noteq> sid) (c_students (d_data (first_class st (d_id c))))
       else c_students (d_data c))"
  proof
    fix c assume c: "c \<in> set (classes st)"
    from first_class_in [OF c] assms have "distinct (c_students (d_data (first_class st (d_id c))))"
      by blast
    with assms c show "distinct
      (if old_class st sid = Some (d_id c) \<and> d_id c \<noteq> []
       then filter (\<lambda>i. i \<noteq> sid) (c_students (d_data (first_class st (d_id c))))
       else c_students (d_data c))"
      by simp
  qed
  then show ?thesis
    by (simp only: leave_old_ball [where P = "\<lambda>i xs. distinct xs"])
qed

lemma updateStudent_no_duplicates:
  assumes agr: "all_agree st" and nd: "no_duplicates st"
    and present: "sid \<in> d_id ` set (students st)"
  shows "no_duplicates (updateStudent sid ud now st)"
proof (cases "old_class st sid = classId ud")
  case True
  then have "classes (updateStudent sid ud now st) = classes st"
    by (simp add: updateStudent_classes)
  with nd show ?thesis by (simp add: no_duplicates_iff)
next
  case False
  from nd have d0: "\<forall>c\<in>set (classes st). distinct (c_students (d_data c))"
    by (simp add: no_duplicates_iff)
  from present obtain s where s: "s \<in> set (students st)" "d_id s = sid"
    by auto
  have cl: "classes (updateStudent sid ud now st)
      = join_new st sid (classId ud) now (leave_old st sid now)"
    using False by (simp add: updateStudent_classes)
  have "\<forall>c\<in>set (leave_old st sid now). distinct
      (if classId ud = Some (d_id c) \<and> d_id c \<noteq> [] \<and> d_id c \<in> d_id ` set (classes st)
       then c_students (d_data (first_class st (d_id c))) @ [sid]
       else c_students (d_data c))"
  proof
    fix c assume c: "c \<in> set (leave_old st sid now)"
    with leave_old_distinct [OF d0] have dc: "distinct (c_students (d_data c))"
      by blast
    show "distinct
      (if classId ud = Some (d_id c) \<and> d_id c \<noteq> [] \<and> d_id c \<in> d_id ` set (classes st)
       then c_students (d_data (first_class st (d_id c))) @ [sid]
       else c_students (d_data c))"
    proof (cases "classId ud = Some (d_id c) \<and> d_id c \<noteq> [] \<and> d_id c \<in> d_id ` set (classes st)")
      case True
      then obtain c0 where c0: "c0 \<in> set (classes st)" "d_id c0 = d_id c"
        by auto
      let ?f = "first_class st (d_id c)"
      from first_class_in [OF c0(1)] c0(2)
      have f: "?f \<in> set (classes st)" "d_id ?f = d_id c"
        by simp_all
      from old_class_agree [OF agr s(1) f(1)]
      have "(old_class st sid = Some (d_id c)) = (sid \<in> set (c_students (d_data ?f)))"
        by (simp only: s(2) f(2))
      with False True have "sid \<notin> set (c_students (d_data ?f))"
        by auto
      moreover from d0 f(1) have "distinct (c_students (d_data ?f))"
        by blast
      ultimately have "distinct (c_students (d_data ?f) @ [sid])"
        by simp
      then show ?thesis by (simp only: if_P [OF True])
    next
      case False
      from dc show ?thesis by (simp only: if_not_P [OF False])
    qed
  qed
  then have "\<forall>c\<in>set (join_new st sid (classId ud) now (leave_old st sid now)).
      distinct (c_students (d_data c))"
    by (simp only: join_new_ball [where P = "\<lambda>i xs. distinct xs"])
  then show ?thesis
    by (simp add: no_duplicates_iff cl)
qed

lemma deleteStudent_no_duplicates:
  assumes "no_duplicates st"
  shows "no_duplicates (deleteStudent sid now st)"
  using assms leave_old_distinct [of st sid now]
  by (simp add: no_duplicates_iff deleteStudent_classes)

lemma deleteClass_no_duplicates:
  assumes "no_duplicates st"
  shows "no_duplicates (deleteClass cid now st)"
  using assms by (simp add: no_duplicates_iff deleteClass_classes deleteDocument_def)

lemma updates_target_students_Cons:
  "updates_target_students st (x # xs) \<longleftrightarrow>
     updates_target_students st [x] \<and> updates_target_students (apply_op st x) xs"
  by (cases x) simp_all

lemma no_duplicates_apply_op:
  assumes "consistent st" and "no_duplicates st"
    and "generated_ids_fresh st [x]" and "updates_target_students st [x]"
  shows "no_duplicates (apply_op st x)"
proof (cases x)
  case (AddStudent new_id now ns)
  with assms(3) have "fresh_id st new_id" by simp
  with AddStudent assms(2) show ?thesis by (simp add: addStudent_no_duplicates)
next
  case (UpdateStudent sid ud now)
  with assms(4) have "sid \<in> d_id ` set (students st)" by simp
  moreover from assms(1) have "all_agree st" by (simp add: consistent_def)
  ultimately show ?thesis
    using UpdateStudent assms(2) by (simp add: updateStudent_no_duplicates)
next
  case (DeleteStudent sid now)
  with assms(2) show ?thesis by (simp add: deleteStudent_no_duplicates)
next
  case (DeleteClass cid now)
  with assms(2) show ?thesis by (simp add: deleteClass_no_duplicates)
qed

text \<open>
  Claim C10, as amended. From a consistent state whose class lists have no duplicates,
  after any sequence of addStudent, updateStudent, deleteStudent (and deleteClass) in
  which the generated ids are new and every updateStudent is for a student of the
  collection, no class lists a student twice.
\<close>

theorem class_lists_stay_distinct:
  assumes "consistent st" and "no_duplicates st"
    and "generated_ids_fresh st ops" and "updates_target_students st ops"
  shows "no_duplicates (run st ops)
    \<and> (\<forall>c\<in>set (classes (run st ops)). distinct (c_students (d_data c)))"
proof -
  have "no_duplicates (run st ops)"
    using assms
  proof (induction ops arbitrary: st)
    case Nil
    then show ?case by simp
  next
    case (Cons x xs)
    from Cons.prems(3) have g: "generated_ids_fresh st [x]" "generated_ids_fresh (apply_op st x) xs"
      by (simp_all only: generated_ids_fresh_Cons [of st x xs])
    from Cons.prems(4) have u: "updates_target_students st [x]"
      "updates_target_students (apply_op st x) xs"
      by (simp_all only: updates_target_students_Cons [of st x xs])
    have "consistent (apply_op st x)"
      using Cons.prems(1) g(1) by (rule consistent_apply_op)
    moreover have "no_duplicates (apply_op st x)"
      using Cons.prems(1,2) g(1) u(1) by (rule no_duplicates_apply_op)
    ultimately have "no_duplicates (run (apply_op st x) xs)"
      using g(2) u(2) by (rule Cons.IH)
    then show ?case by simp
  qed
  then show ?thesis by (simp add: no_duplicates_iff)
qed

text \<open>
  Claim C10 as stated fails: updateStudent for an id that is not in the collection,
  called twice with the same class, appends the id to that class twice.
\<close>

theorem update_absent_student_duplicates:
  "consistent one_class \<and> no_duplicates one_class
   \<and> generated_ids_fresh one_class update_absent_twice
   \<and> map (\<lambda>c. (d_id c, c_students (d_data c))) (classes (run one_class update_absent_twice))
       = [(''c1'', [''ghost'', ''ghost''])]
   \<and> \<not> no_duplicates (run one_class update_absent_twice)"
  by (simp add: consistent_def all_agree_def no_duplicates_def one_class_def
      update_absent_twice_def example_class_def example_student_def
      updateStudent_def find_doc_def truthy_def updateClassDoc_def
      updateDocument_def merge_class_def students_only_def Let_def)

theorem class_lists_stay_distinct_example:
  "consistent two_classes \<and> no_duplicates two_classes
   \<and> generated_ids_fresh two_classes add_then_move
   \<and> updates_target_students two_classes add_then_move
   \<and> no_duplicates (run two_classes add_then_move)"
proof -
  have c: "consistent two_classes"
    by (simp add: consistent_def all_agree_def two_classes_def example_class_def)
  have n: "no_duplicates two_classes"
    by (simp add: no_duplicates_def two_classes_def example_class_def)
  have f: "generated_ids_fresh two_classes add_then_move"
    by (simp add: add_then_move_def fresh_id_def two_classes_def example_class_def)
  have u: "updates_target_students two_classes add_then_move"
    by (simp add: add_then_move_def two_classes_def addStudent_def addDocument_def Let_def
        split: option.splits)
  from class_lists_stay_distinct [OF c n f u] c n f u show ?thesis by blast
qed

section \<open>Attendance upsert\<close>

lemma ids_setDoc_merge:
  "map d_id (setDoc_merge i d c u col) =
     (if i \<in> d_id ` set col then map d_id col else map d_id col @ [i])"
  by (simp add: setDoc_merge_def comp_def if_distrib cong: if_cong)






lemma keyed_setDoc_merge:
  assumes "keyed col" and "key_of_fields d = i"
  shows "keyed (setDoc_merge i d c u col)"
proof -
  from assms(1) have dis: "distinct (map d_id col)"
    and k: "\<forall>x\<in>set col. d_id x = key_of_fields (d_data x)"
    by (simp_all add: keyed_def list_all_iff)
  have "distinct (map d_id (setDoc_merge i d c u col))"
    using dis by (simp add: ids_setDoc_merge)
  moreover have "\<forall>x\<in>set (setDoc_merge i d c u col). d_id x = key_of_fields (d_data x)"
    using k assms(2) by (auto simp: setDoc_merge_def)
  ultimately show ?thesis by (simp add: keyed_def list_all_iff)
qed


lemma addAttendance_valid:
  assumes "n_date r = Date t" and "\<bar>t\<bar> \<le> 8640000000000000"
  shows "addAttendance a b r col =
     Inr (setDoc_merge
            (attendanceDocId (n_studentId r) (n_classId r) (n_instructorId r) (iso_date (utc_day t)))
            \<lparr>a_studentId = n_studentId r, a_classId = n_classId r,
             a_instructorId = n_instructorId r, a_date = t, a_status = n_status r\<rparr>
            (Some a) (Some b) col)"
  using assms by (simp add: addAttendance_def toISOString_date_def)

lemma addAttendance_keeps_keyed:
  assumes "keyed col" and "addAttendance a b r col = Inr col'"
  shows "keyed col'"
proof (cases "n_date r")
  case InvalidDate
  with assms(2) show ?thesis by (simp add: addAttendance_def)
next
  case (Date t)
  show ?thesis
  proof (cases "\<bar>t\<bar> \<le> 8640000000000000")
    case True
    from assms(2) have "col' = setDoc_merge
            (attendanceDocId (n_studentId r) (n_classId r) (n_instructorId r) (iso_date (utc_day t)))
            \<lparr>a_studentId = n_studentId r, a_classId = n_classId r,
             a_instructorId = n_instructorId r, a_date = t, a_status = n_status r\<rparr>
            (Some a) (Some b) col"
      by (simp add: addAttendance_valid [OF Date True])
    moreover have "keyed (setDoc_merge
            (attendanceDocId (n_studentId r) (n_classId r) (n_instructorId r) (iso_date (utc_day t)))
            \<lparr>a_studentId = n_studentId r, a_classId = n_classId r,
             a_instructorId = n_instructorId r, a_date = t, a_status = n_status r\<rparr>
            (Some a) (Some b) col)"
      using assms(1) by (rule keyed_setDoc_merge) (simp add: key_of_fields_def)
    ultimately show ?thesis by simp
  next
    case False
    with Date assms(2) show ?thesis
      by (simp add: addAttendance_def toISOString_date_def)
  qed
qed



text \<open>
  Claim C4 against the code. A record created at clock reading 100 and written again
  for the same key at reading 200 has creation timestamp 200 afterwards: the write
  carries \<open>createdAt\<close> as well, and the merge replaces every field it carries.
\<close>

theorem addAttendance_overwrites_createdAt:
  "addAttendance 100 101 (example_attendance 1709596800000 ''present'') []
     = Inr [example_attendance_doc 1709596800000 ''present'' 100 101]
   \<and> addAttendance 200 201 (example_attendance 1709596800000 ''absent'')
        [example_attendance_doc 1709596800000 ''present'' 100 101]
     = Inr [example_attendance_doc 1709596800000 ''absent'' 200 201]
   \<and> createdAt (example_attendance_doc 1709596800000 ''absent'' 200 201) = Some 200
   \<and> createdAt (example_attendance_doc 1709596800000 ''present'' 100 101) = Some 100"
  by code_simp

section \<open>Export by class\<close>







end
